theory Spec2Isabelle
  imports Complex_Main
begin

section \<open>Data model\<close>

text \<open>
  The grid visualisation is the React component \<open>CanvasMap\<close>. JavaScript numbers are
  modelled as real numbers: arithmetic is exact, and the two places where the source
  would produce \<open>NaN\<close> or an infinity (a remainder or a division by zero) are written
  out as branches of their own.
\<close>

datatype TableStatus = Pending | Completed | Issue

datatype TableType = Small | Medium | Large

text \<open>The fields of \<open>Table\<close> that the component reads.\<close>

record Table =
  table_id :: string
  table_type :: TableType
  status :: TableStatus
  table_x :: real
  table_y :: real

text \<open>An object \<open>{ x, y }\<close>: the offset, the drag anchor, one touch contact.\<close>

record Point =
  pt_x :: real
  pt_y :: real

text \<open>The five \<open>useState\<close> cells of the component.\<close>

record CanvasMapState =
  scale :: real
  offset :: Point
  isDragging :: bool
  dragStart :: Point
  lastTouchDistance :: "real option"

definition initialState :: CanvasMapState where
  "initialState =
     \<lparr>scale = 1, offset = \<lparr>pt_x = 50, pt_y = 50\<rparr>, isDragging = False,
      dragStart = \<lparr>pt_x = 0, pt_y = 0\<rparr>, lastTouchDistance = None\<rparr>"

text \<open>
  What \<open>canvasRef.current\<close> holds when it is not null: the bitmap size, the origin of
  \<open>getBoundingClientRect()\<close>, whether \<open>getContext('2d')\<close> returns a context, and whether
  that context has \<open>roundRect\<close>.
\<close>

record Canvas =
  width :: real
  height :: real
  rect_left :: real
  rect_top :: real
  has_context :: bool
  has_roundRect :: bool

section \<open>Layout constants\<close>

definition TABLE_WIDTH :: real where "TABLE_WIDTH = 45"
definition TABLE_HEIGHT :: real where "TABLE_HEIGHT = 25"
definition GAP :: real where "GAP = 15"

section \<open>Gesture handlers\<close>

text \<open>\<open>Math.hypot\<close> of two arguments.\<close>

definition hypot :: "real \<Rightarrow> real \<Rightarrow> real" where
  "hypot a b = sqrt (a\<^sup>2 + b\<^sup>2)"

definition handleMouseDown :: "real \<Rightarrow> real \<Rightarrow> CanvasMapState \<Rightarrow> CanvasMapState" where
  "handleMouseDown clientX clientY st =
     st\<lparr>isDragging := True,
        dragStart := \<lparr>pt_x = clientX - pt_x (offset st), pt_y = clientY - pt_y (offset st)\<rparr>\<rparr>"

definition handleMouseMove :: "real \<Rightarrow> real \<Rightarrow> CanvasMapState \<Rightarrow> CanvasMapState" where
  "handleMouseMove clientX clientY st =
     (if isDragging st
      then st\<lparr>offset := \<lparr>pt_x = clientX - pt_x (dragStart st),
                         pt_y = clientY - pt_y (dragStart st)\<rparr>\<rparr>
      else st)"

definition handleMouseUp :: "CanvasMapState \<Rightarrow> CanvasMapState" where
  "handleMouseUp st = st\<lparr>isDragging := False\<rparr>"

definition handleWheel :: "real \<Rightarrow> CanvasMapState \<Rightarrow> CanvasMapState" where
  "handleWheel deltaY st =
     (let zoomSensitivity = 0.001;
          delta = - deltaY * zoomSensitivity;
          newScale = min (max (scale st + delta) 0.2) 5
      in st\<lparr>scale := newScale\<rparr>)"

text \<open>
  The argument is \<open>e.touches\<close>. The source tests \<open>e.touches.length\<close> against 1 and 2 and
  does nothing for any other length.
\<close>

fun handleTouchStart :: "Point list \<Rightarrow> CanvasMapState \<Rightarrow> CanvasMapState" where
  "handleTouchStart [t0] st =
     st\<lparr>isDragging := True,
        dragStart := \<lparr>pt_x = pt_x t0 - pt_x (offset st), pt_y = pt_y t0 - pt_y (offset st)\<rparr>\<rparr>"
| "handleTouchStart [t0, t1] st =
     (let dist = hypot (pt_x t0 - pt_x t1) (pt_y t0 - pt_y t1)
      in st\<lparr>isDragging := False, lastTouchDistance := Some dist\<rparr>)"
| "handleTouchStart _ st = st"

text \<open>
  The truthiness test \<open>&& lastTouchDistance\<close> on a \<open>number | null\<close>: null and 0 are
  falsy.
\<close>

definition truthy :: "real option \<Rightarrow> bool" where
  "truthy v = (case v of None \<Rightarrow> False | Some d \<Rightarrow> d \<noteq> 0)"

fun handleTouchMove :: "Point list \<Rightarrow> CanvasMapState \<Rightarrow> CanvasMapState" where
  "handleTouchMove [t0] st =
     (if isDragging st
      then st\<lparr>offset := \<lparr>pt_x = pt_x t0 - pt_x (dragStart st),
                         pt_y = pt_y t0 - pt_y (dragStart st)\<rparr>\<rparr>
      else st)"
| "handleTouchMove [t0, t1] st =
     (if truthy (lastTouchDistance st)
      then (let dist = hypot (pt_x t0 - pt_x t1) (pt_y t0 - pt_y t1);
                delta = dist - the (lastTouchDistance st);
                zoomFactor = delta * 0.005;
                newScale = min (max (scale st + zoomFactor) 0.2) 5
            in st\<lparr>scale := newScale, lastTouchDistance := Some dist\<rparr>)
      else st)"
| "handleTouchMove _ st = st"

definition handleTouchEnd :: "CanvasMapState \<Rightarrow> CanvasMapState" where
  "handleTouchEnd st = st\<lparr>isDragging := False, lastTouchDistance := None\<rparr>"

text \<open>The three buttons: \<open>setScale(s => Math.min(s + 0.2, 5))\<close>,
  \<open>setScale(s => Math.max(s - 0.2, 0.2))\<close> and \<open>resetView\<close>.\<close>

definition zoomIn :: "CanvasMapState \<Rightarrow> CanvasMapState" where
  "zoomIn st = st\<lparr>scale := min (scale st + 0.2) 5\<rparr>"

definition zoomOut :: "CanvasMapState \<Rightarrow> CanvasMapState" where
  "zoomOut st = st\<lparr>scale := max (scale st - 0.2) 0.2\<rparr>"

definition resetView :: "CanvasMapState \<Rightarrow> CanvasMapState" where
  "resetView st = st\<lparr>scale := 1, offset := \<lparr>pt_x = 50, pt_y = 50\<rparr>\<rparr>"

section \<open>Hit test\<close>

text \<open>The predicate handed to \<open>tables.find\<close> in \<open>handleClick\<close>.\<close>

definition containsClick :: "real \<Rightarrow> real \<Rightarrow> Table \<Rightarrow> bool" where
  "containsClick clickX clickY t =
     (let tx = table_x t * (TABLE_WIDTH + GAP);
          ty = table_y t * (TABLE_HEIGHT + GAP)
      in clickX \<ge> tx \<and> clickX \<le> tx + TABLE_WIDTH \<and> clickY \<ge> ty \<and> clickY \<le> ty + TABLE_HEIGHT)"

text \<open>
  \<open>clickX\<close> and \<open>clickY\<close> of \<open>handleClick\<close>: the inverse of the view transform,
  applied to the pointer position relative to the canvas.
\<close>

definition clickPoint :: "Canvas \<Rightarrow> CanvasMapState \<Rightarrow> real \<Rightarrow> real \<Rightarrow> real \<times> real" where
  "clickPoint canvas st clientX clientY =
     ((clientX - rect_left canvas - pt_x (offset st)) / scale st,
      (clientY - rect_top canvas - pt_y (offset st)) / scale st)"

text \<open>
  With \<open>scale = 0\<close> the two divisions of the source give an infinity or \<open>NaN\<close>, every
  comparison of the predicate is false and \<open>find\<close> returns \<open>undefined\<close>; HOL's
  \<open>x / 0 = 0\<close> would say otherwise, so that case is a branch here.
\<close>

definition clickedTable ::
  "Canvas \<Rightarrow> Table list \<Rightarrow> CanvasMapState \<Rightarrow> real \<Rightarrow> real \<Rightarrow> Table option" where
  "clickedTable canvas tables st clientX clientY =
     (if scale st = 0 then None
      else (let (clickX, clickY) = clickPoint canvas st clientX clientY
            in find (containsClick clickX clickY) tables))"

text \<open>
  The forward view transform, as \<open>draw\<close> sets it up with
  \<open>ctx.translate(offset.x, offset.y); ctx.scale(scale, scale)\<close>: where on the canvas a
  point of the logical plane is painted.
\<close>

definition logicalToScreen :: "CanvasMapState \<Rightarrow> real \<Rightarrow> real \<Rightarrow> real \<times> real" where
  "logicalToScreen st lx ly =
     (pt_x (offset st) + scale st * lx, pt_y (offset st) + scale st * ly)"

text \<open>
  \<open>handleClick\<close> changes no state; its result is the list of \<open>onTableClick\<close> calls it
  makes, each call written as the id passed.
\<close>

definition handleClick ::
  "Canvas option \<Rightarrow> Table list \<Rightarrow> CanvasMapState \<Rightarrow> real \<Rightarrow> real \<Rightarrow> string list" where
  "handleClick canvasRef tables st clientX clientY =
     (if isDragging st then []
      else case canvasRef of
             None \<Rightarrow> []
           | Some canvas \<Rightarrow>
               (case clickedTable canvas tables st clientX clientY of
                  Some t \<Rightarrow> [table_id t]
                | None \<Rightarrow> []))"

section \<open>Event dispatch\<close>

text \<open>
  The events the canvas element and the buttons are wired to. \<open>MouseUp\<close> stands for
  both \<open>onMouseUp\<close> and \<open>onMouseLeave\<close>, which share a handler. Each handler runs on the
  state left by the previous event.
\<close>

datatype Event =
    MouseDown real real
  | MouseMove real real
  | MouseUp
  | Wheel real
  | TouchStart "Point list"
  | TouchMove "Point list"
  | TouchEnd
  | Click real real
  | ZoomInButton
  | ZoomOutButton
  | ResetButton

fun nextState :: "Event \<Rightarrow> CanvasMapState \<Rightarrow> CanvasMapState" where
  "nextState (MouseDown cx cy) st = handleMouseDown cx cy st"
| "nextState (MouseMove cx cy) st = handleMouseMove cx cy st"
| "nextState MouseUp st = handleMouseUp st"
| "nextState (Wheel dy) st = handleWheel dy st"
| "nextState (TouchStart ts) st = handleTouchStart ts st"
| "nextState (TouchMove ts) st = handleTouchMove ts st"
| "nextState TouchEnd st = handleTouchEnd st"
| "nextState (Click cx cy) st = st"
| "nextState ZoomInButton st = zoomIn st"
| "nextState ZoomOutButton st = zoomOut st"
| "nextState ResetButton st = resetView st"

text \<open>The \<open>onTableClick\<close> calls one event makes.\<close>

fun emitted :: "Canvas option \<Rightarrow> Table list \<Rightarrow> Event \<Rightarrow> CanvasMapState \<Rightarrow> string list" where
  "emitted canvasRef tables (Click cx cy) st = handleClick canvasRef tables st cx cy"
| "emitted canvasRef tables _ st = []"

text \<open>Running a sequence of events: the final state and every call made, in order.\<close>

fun run ::
  "Canvas option \<Rightarrow> Table list \<Rightarrow> Event list \<Rightarrow> CanvasMapState \<Rightarrow> CanvasMapState \<times> string list"
  where
  "run canvasRef tables [] st = (st, [])"
| "run canvasRef tables (e # es) st =
     (let (st', calls) = run canvasRef tables es (nextState e st)
      in (st', emitted canvasRef tables e st @ calls))"

text \<open>The policy interval of the scale.\<close>

definition inPolicy :: "real \<Rightarrow> bool" where
  "inPolicy s = (0.2 \<le> s \<and> s \<le> 5)"

section \<open>Drawing surface\<close>

text \<open>
  The part of the 2-D context that \<open>draw\<close> reads or writes. The transformation matrix is
  kept as its scale and translation, the only components \<open>translate\<close> and \<open>scale\<close> touch.
\<close>

record Transform =
  m_sx :: real
  m_sy :: real
  m_dx :: real
  m_dy :: real

definition identity :: Transform where
  "identity = \<lparr>m_sx = 1, m_sy = 1, m_dx = 0, m_dy = 0\<rparr>"

text \<open>The drawing state that \<open>save\<close> pushes and \<open>restore\<close> pops.\<close>

record DrawingState =
  fillStyle :: string
  strokeStyle :: string
  lineWidth :: real
  font :: string
  textAlign :: string
  textBaseline :: string
  ctm :: Transform

datatype PathOp =
    PMoveTo real real
  | PLineTo real real
  | PArc real real real real real
  | PRoundRect real real real real real
  | PRect real real real real

type_synonym Path = "(Transform \<times> PathOp) list"

text \<open>
  The bitmap is kept as the list of paint operations applied since it was last blank,
  each with the transformation and the styles in force when it was applied.
\<close>

datatype Paint =
    ClearP Transform real real real real
  | FillRectP Transform real real real real string
  | FillP Path string
  | StrokeP Path string real Transform
  | TextP Transform string real real string string string string

record Ctx =
  pixels :: "Paint list"
  path :: Path
  cur :: DrawingState
  stack :: "DrawingState list"

datatype Cmd =
    ClearRect real real real real
  | FillRect real real real real
  | SetFillStyle string
  | SetStrokeStyle string
  | SetLineWidth real
  | SetFont string
  | SetTextAlign string
  | SetTextBaseline string
  | BeginPath
  | MoveTo real real
  | LineTo real real
  | Arc real real real real real
  | RoundRect real real real real real
  | Rect real real real real
  | Fill
  | Stroke
  | FillText string real real
  | Save
  | Restore
  | Translate real real
  | Scale real real

text \<open>Whether a rectangle given in user space covers the whole bitmap.\<close>

definition coversCanvas :: "Canvas \<Rightarrow> Transform \<Rightarrow> real \<Rightarrow> real \<Rightarrow> real \<Rightarrow> real \<Rightarrow> bool" where
  "coversCanvas c m x y w h =
     (let x0 = m_dx m + m_sx m * x; x1 = m_dx m + m_sx m * (x + w);
          y0 = m_dy m + m_sy m * y; y1 = m_dy m + m_sy m * (y + h)
      in min x0 x1 \<le> 0 \<and> width c \<le> max x0 x1 \<and> min y0 y1 \<le> 0 \<and> height c \<le> max y0 y1)"

text \<open>
  One call on the context. The result is \<open>None\<close> when the call throws a \<open>TypeError\<close>:
  \<open>ctx.roundRect(...)\<close> on a context that has no \<open>roundRect\<close>. A \<open>clearRect\<close> that covers
  the bitmap leaves it blank.
\<close>

fun exec :: "Canvas \<Rightarrow> Cmd \<Rightarrow> Ctx \<Rightarrow> Ctx option" where
  "exec c (ClearRect x y w h) s =
     Some (if coversCanvas c (ctm (cur s)) x y w h then s\<lparr>pixels := []\<rparr>
           else s\<lparr>pixels := pixels s @ [ClearP (ctm (cur s)) x y w h]\<rparr>)"
| "exec c (FillRect x y w h) s =
     Some (s\<lparr>pixels := pixels s @ [FillRectP (ctm (cur s)) x y w h (fillStyle (cur s))]\<rparr>)"
| "exec c (SetFillStyle v) s = Some (s\<lparr>cur := (cur s)\<lparr>fillStyle := v\<rparr>\<rparr>)"
| "exec c (SetStrokeStyle v) s = Some (s\<lparr>cur := (cur s)\<lparr>strokeStyle := v\<rparr>\<rparr>)"
| "exec c (SetLineWidth v) s = Some (s\<lparr>cur := (cur s)\<lparr>lineWidth := v\<rparr>\<rparr>)"
| "exec c (SetFont v) s = Some (s\<lparr>cur := (cur s)\<lparr>font := v\<rparr>\<rparr>)"
| "exec c (SetTextAlign v) s = Some (s\<lparr>cur := (cur s)\<lparr>textAlign := v\<rparr>\<rparr>)"
| "exec c (SetTextBaseline v) s = Some (s\<lparr>cur := (cur s)\<lparr>textBaseline := v\<rparr>\<rparr>)"
| "exec c BeginPath s = Some (s\<lparr>path := []\<rparr>)"
| "exec c (MoveTo x y) s = Some (s\<lparr>path := path s @ [(ctm (cur s), PMoveTo x y)]\<rparr>)"
| "exec c (LineTo x y) s = Some (s\<lparr>path := path s @ [(ctm (cur s), PLineTo x y)]\<rparr>)"
| "exec c (Arc x y r a0 a1) s = Some (s\<lparr>path := path s @ [(ctm (cur s), PArc x y r a0 a1)]\<rparr>)"
| "exec c (RoundRect x y w h r) s =
     (if has_roundRect c
      then Some (s\<lparr>path := path s @ [(ctm (cur s), PRoundRect x y w h r)]\<rparr>)
      else None)"
| "exec c (Rect x y w h) s = Some (s\<lparr>path := path s @ [(ctm (cur s), PRect x y w h)]\<rparr>)"
| "exec c Fill s = Some (s\<lparr>pixels := pixels s @ [FillP (path s) (fillStyle (cur s))]\<rparr>)"
| "exec c Stroke s =
     Some (s\<lparr>pixels := pixels s @
              [StrokeP (path s) (strokeStyle (cur s)) (lineWidth (cur s)) (ctm (cur s))]\<rparr>)"
| "exec c (FillText txt x y) s =
     Some (s\<lparr>pixels := pixels s @
              [TextP (ctm (cur s)) txt x y (font (cur s)) (textAlign (cur s))
                 (textBaseline (cur s)) (fillStyle (cur s))]\<rparr>)"
| "exec c Save s = Some (s\<lparr>stack := cur s # stack s\<rparr>)"
| "exec c Restore s =
     Some (case stack s of [] \<Rightarrow> s | d # ds \<Rightarrow> s\<lparr>cur := d, stack := ds\<rparr>)"
| "exec c (Translate dx dy) s =
     Some (s\<lparr>cur := (cur s)\<lparr>ctm := (ctm (cur s))
              \<lparr>m_dx := m_dx (ctm (cur s)) + m_sx (ctm (cur s)) * dx,
               m_dy := m_dy (ctm (cur s)) + m_sy (ctm (cur s)) * dy\<rparr>\<rparr>\<rparr>)"
| "exec c (Scale kx ky) s =
     Some (s\<lparr>cur := (cur s)\<lparr>ctm := (ctm (cur s))
              \<lparr>m_sx := m_sx (ctm (cur s)) * kx, m_sy := m_sy (ctm (cur s)) * ky\<rparr>\<rparr>\<rparr>)"

text \<open>How a run of calls ends: it returns, or a call throws and the rest is skipped.\<close>

datatype Completion = Normal | TypeError

fun execAll :: "Canvas \<Rightarrow> Cmd list \<Rightarrow> Ctx \<Rightarrow> Ctx \<times> Completion" where
  "execAll c [] s = (s, Normal)"
| "execAll c (k # ks) s =
     (case exec c k s of None \<Rightarrow> (s, TypeError) | Some s' \<Rightarrow> execAll c ks s')"

section \<open>The render pass\<close>

text \<open>\<open>Math.PI\<close>, the double nearest to the number pi.\<close>

definition MATH_PI :: real where
  "MATH_PI = 884279719003555 / 281474976710656"

definition drawCheckmark :: "real \<Rightarrow> real \<Rightarrow> real \<Rightarrow> Cmd list" where
  "drawCheckmark x y sz =
     [BeginPath,
      MoveTo (x + sz * 0.2) (y + sz * 0.5),
      LineTo (x + sz * 0.45) (y + sz * 0.8),
      LineTo (x + sz * 0.8) (y + sz * 0.2),
      SetStrokeStyle ''#15803d'',
      SetLineWidth 2,
      Stroke]"

definition drawExclamation :: "real \<Rightarrow> real \<Rightarrow> real \<Rightarrow> Cmd list" where
  "drawExclamation x y sz =
     [SetFillStyle ''#b91c1c'',
      BeginPath,
      Arc (x + sz / 2) (y + sz * 0.8) (sz * 0.1) 0 (MATH_PI * 2),
      Fill,
      BeginPath,
      RoundRect (x + sz * 0.4) (y + sz * 0.15) (sz * 0.2) (sz * 0.5) 2,
      Fill]"

text \<open>The string value of the enum \<open>TableType\<close>.\<close>

fun typeLabel :: "TableType \<Rightarrow> string" where
  "typeLabel Small = ''S''"
| "typeLabel Medium = ''M''"
| "typeLabel Large = ''L''"

text \<open>\<open>drawX\<close> and \<open>drawY\<close> of the \<open>forEach\<close> callback in \<open>draw\<close>.\<close>

definition drawX :: "Table \<Rightarrow> real" where
  "drawX t = table_x t * (TABLE_WIDTH + GAP)"

definition drawY :: "Table \<Rightarrow> real" where
  "drawY t = table_y t * (TABLE_HEIGHT + GAP)"

text \<open>
  The body of the \<open>forEach\<close> callback. The flag is the test \<open>if (ctx.roundRect)\<close> that
  guards the main rectangle.
\<close>

definition tableCmds :: "bool \<Rightarrow> Table \<Rightarrow> Cmd list" where
  "tableCmds roundRectPresent t =
     (let fillColor = (if status t = Completed then ''#dcfce7''
                       else if status t = Issue then ''#fee2e2'' else ''#ffffff'');
          strokeColor = (if status t = Completed then ''#22c55e''
                         else if status t = Issue then ''#ef4444'' else ''#94a3b8'');
          shadowColor = (if status t = Completed then ''rgba(34, 197, 94, 0.2)''
                         else if status t = Issue then ''rgba(239, 68, 68, 0.2)''
                         else ''rgba(0,0,0,0.05)'')
      in [SetFillStyle shadowColor,
          FillRect (drawX t + 3) (drawY t + 3) TABLE_WIDTH TABLE_HEIGHT,
          SetFillStyle fillColor,
          SetStrokeStyle strokeColor,
          SetLineWidth (if status t = Pending then 1 else 2),
          BeginPath,
          (if roundRectPresent then RoundRect (drawX t) (drawY t) TABLE_WIDTH TABLE_HEIGHT 4
           else Rect (drawX t) (drawY t) TABLE_WIDTH TABLE_HEIGHT),
          Fill,
          Stroke,
          SetFillStyle ''#64748b'',
          SetFont ''bold 10px sans-serif'',
          SetTextAlign ''left'',
          SetTextBaseline ''top'',
          FillText (typeLabel (table_type t)) (drawX t + 4) (drawY t + 4)] @
         (if status t = Completed
          then drawCheckmark (drawX t + TABLE_WIDTH - 16) (drawY t + TABLE_HEIGHT - 16) 14
          else if status t = Issue
          then drawExclamation (drawX t + TABLE_WIDTH - 16) (drawY t + TABLE_HEIGHT - 16) 14
          else [SetStrokeStyle ''#cbd5e1'',
                SetLineWidth 1,
                BeginPath,
                Arc (drawX t + TABLE_WIDTH - 8) (drawY t + TABLE_HEIGHT - 8) 3 0 (MATH_PI * 2),
                Stroke]))"

text \<open>
  The remainder operator \<open>%\<close> on numbers: the sign follows the dividend; \<open>None\<close> is the
  \<open>NaN\<close> of a zero divisor.
\<close>

definition jsRem :: "real \<Rightarrow> real \<Rightarrow> real option" where
  "jsRem a b =
     (if b = 0 then None
      else Some (a - b * of_int (if 0 \<le> a / b then \<lfloor>a / b\<rfloor> else \<lceil>a / b\<rceil>)))"

text \<open>
  The loop \<open>for (let x = start; x < limit; x += gridSize)\<close>: the values of \<open>x\<close> at which
  the body runs, or \<open>None\<close> when the loop never ends.
\<close>

function gridLoop :: "real \<Rightarrow> real \<Rightarrow> real \<Rightarrow> real list option" where
  "gridLoop x limit gridSize =
     (if x < limit
      then (if gridSize \<le> 0 then None
            else map_option ((#) x) (gridLoop (x + gridSize) limit gridSize))
      else Some [])"
  by pat_completeness auto
termination
proof (relation "measure (\<lambda>(x, limit, gridSize). nat \<lceil>(limit - x) / gridSize\<rceil>)")
  show "wf (measure (\<lambda>(x, limit, gridSize). nat \<lceil>(limit - x) / gridSize\<rceil>))"
    by simp
next
  fix x limit gridSize :: real
  assume a: "x < limit" "\<not> gridSize \<le> 0"
  then have g: "0 < gridSize" by simp
  have "(limit - (x + gridSize)) / gridSize = (limit - x) / gridSize - 1"
    using g by (simp add: field_simps)
  moreover have "0 < (limit - x) / gridSize"
    using a g by simp
  ultimately have "nat \<lceil>(limit - (x + gridSize)) / gridSize\<rceil> < nat \<lceil>(limit - x) / gridSize\<rceil>"
    by (simp add: nat_less_iff)
  then show "((x + gridSize, limit, gridSize), (x, limit, gridSize))
        \<in> measure (\<lambda>(x, limit, gridSize). nat \<lceil>(limit - x) / gridSize\<rceil>)"
    by simp
qed

declare gridLoop.simps [simp del]

text \<open>A loop whose start is \<open>NaN\<close> fails its first test and runs no iteration.\<close>

definition gridStops :: "real \<Rightarrow> real \<Rightarrow> real \<Rightarrow> real list option" where
  "gridStops off gridSize limit =
     (case jsRem off gridSize of
        None \<Rightarrow> Some []
      | Some start \<Rightarrow> gridLoop start limit gridSize)"

text \<open>
  The calls \<open>draw\<close> makes on the context once both null guards are passed, or \<open>None\<close>
  when a grid loop never ends.
\<close>

definition drawCmds :: "bool \<Rightarrow> Canvas \<Rightarrow> Table list \<Rightarrow> CanvasMapState \<Rightarrow> Cmd list option" where
  "drawCmds exportMode canvas tables st =
     (let gridSize = 50 * scale st
      in case gridStops (pt_x (offset st)) gridSize (width canvas) of
           None \<Rightarrow> None
         | Some xs \<Rightarrow>
             (case gridStops (pt_y (offset st)) gridSize (height canvas) of
                None \<Rightarrow> None
              | Some ys \<Rightarrow>
                  Some ([ClearRect 0 0 (width canvas) (height canvas)] @
                        (if exportMode
                         then [SetFillStyle ''#ffffff'',
                               FillRect 0 0 (width canvas) (height canvas)]
                         else []) @
                        [SetStrokeStyle (if exportMode then ''#e2e8f0'' else ''rgba(0,0,0,0.05)''),
                         SetLineWidth 1,
                         BeginPath] @
                        concat (map (\<lambda>x. [MoveTo x 0, LineTo x (height canvas)]) xs) @
                        concat (map (\<lambda>y. [MoveTo 0 y, LineTo (width canvas) y]) ys) @
                        [Stroke,
                         Save,
                         Translate (pt_x (offset st)) (pt_y (offset st)),
                         Scale (scale st) (scale st)] @
                        concat (map (tableCmds (has_roundRect canvas)) tables) @
                        [Restore])))"

text \<open>
  \<open>draw(exportMode)\<close> on the context in state \<open>ctx\<close>: \<open>None\<close> when it never returns,
  otherwise the state it leaves and how it ended. Both null guards return at once.
\<close>

definition draw ::
  "bool \<Rightarrow> Canvas option \<Rightarrow> Table list \<Rightarrow> CanvasMapState \<Rightarrow> Ctx \<Rightarrow> (Ctx \<times> Completion) option" where
  "draw exportMode canvasRef tables st ctx =
     (case canvasRef of
        None \<Rightarrow> Some (ctx, Normal)
      | Some canvas \<Rightarrow>
          if \<not> has_context canvas then Some (ctx, Normal)
          else (case drawCmds exportMode canvas tables st of
                  None \<Rightarrow> None
                | Some cmds \<Rightarrow> Some (execAll canvas cmds ctx)))"

text \<open>A context as \<open>getContext\<close> first hands it out.\<close>

definition freshCtx :: Ctx where
  "freshCtx =
     \<lparr>pixels = [], path = [],
      cur = \<lparr>fillStyle = ''#000000'', strokeStyle = ''#000000'', lineWidth = 1,
             font = ''10px sans-serif'', textAlign = ''start'', textBaseline = ''alphabetic'',
             ctm = identity\<rparr>,
      stack = []\<rparr>"

section \<open>Classes of calls\<close>

text \<open>Calls that leave the stack of saved states alone.\<close>

fun keepsStack :: "Cmd \<Rightarrow> bool" where
  "keepsStack Save = False"
| "keepsStack Restore = False"
| "keepsStack _ = True"

text \<open>Calls that only extend the current path.\<close>

fun pathStep :: "Cmd \<Rightarrow> bool" where
  "pathStep (MoveTo x y) = True"
| "pathStep (LineTo x y) = True"
| "pathStep _ = False"

text \<open>Calls that throw on this canvas.\<close>

fun throwsOn :: "Canvas \<Rightarrow> Cmd \<Rightarrow> bool" where
  "throwsOn c (RoundRect x y w h r) = (\<not> has_roundRect c)"
| "throwsOn c _ = False"

text \<open>The calls of \<open>draw\<close> up to the first grid loop.\<close>

definition preludeCmds :: "bool \<Rightarrow> Canvas \<Rightarrow> Cmd list" where
  "preludeCmds exportMode canvas =
     [ClearRect 0 0 (width canvas) (height canvas)] @
     (if exportMode
      then [SetFillStyle ''#ffffff'', FillRect 0 0 (width canvas) (height canvas)]
      else []) @
     [SetStrokeStyle (if exportMode then ''#e2e8f0'' else ''rgba(0,0,0,0.05)''),
      SetLineWidth 1,
      BeginPath]"

text \<open>What those calls leave of a drawing state, and on a blank bitmap.\<close>

definition preludeState :: "bool \<Rightarrow> DrawingState \<Rightarrow> DrawingState" where
  "preludeState exportMode d =
     (if exportMode
      then d\<lparr>fillStyle := ''#ffffff'', strokeStyle := ''#e2e8f0'', lineWidth := 1\<rparr>
      else d\<lparr>strokeStyle := ''rgba(0,0,0,0.05)'', lineWidth := 1\<rparr>)"

definition preludePixels :: "bool \<Rightarrow> Canvas \<Rightarrow> Paint list" where
  "preludePixels exportMode canvas =
     (if exportMode
      then [FillRectP identity 0 0 (width canvas) (height canvas) ''#ffffff'']
      else [])"

section \<open>Placement of a table\<close>

text \<open>
  The placement formula in the words of the specification, with the documented
  constants: the rectangle \<open>(x, y, width, height)\<close> of a table in logical units.
\<close>

definition rectFor :: "Table \<Rightarrow> real \<times> real \<times> real \<times> real" where
  "rectFor t = (table_x t * (45 + 15), table_y t * (25 + 15), 45, 25)"

text \<open>A point lies in a rectangle, edges included.\<close>

fun inRect :: "real \<times> real \<times> real \<times> real \<Rightarrow> real \<times> real \<Rightarrow> bool" where
  "inRect (x, y, w, h) (px, py) = (x \<le> px \<and> px \<le> x + w \<and> y \<le> py \<and> py \<le> y + h)"

text \<open>
  The call that puts a rectangle on the path, and the path element it leaves: the
  rounded rectangle of radius 4 where the context has \<open>roundRect\<close>, the plain one
  otherwise.
\<close>

fun rectCall :: "bool \<Rightarrow> real \<times> real \<times> real \<times> real \<Rightarrow> Cmd" where
  "rectCall rr (x, y, w, h) = (if rr then RoundRect x y w h 4 else Rect x y w h)"

fun rectPath :: "bool \<Rightarrow> real \<times> real \<times> real \<times> real \<Rightarrow> PathOp" where
  "rectPath rr (x, y, w, h) = (if rr then PRoundRect x y w h 4 else PRect x y w h)"

text \<open>The transformation in force after \<open>translate(offset)\<close> and \<open>scale(scale)\<close> on the identity.\<close>

definition viewCtm :: "CanvasMapState \<Rightarrow> Transform" where
  "viewCtm st =
     \<lparr>m_sx = scale st, m_sy = scale st, m_dx = pt_x (offset st), m_dy = pt_y (offset st)\<rparr>"

text \<open>Calls that do not clear the bitmap, and calls that leave the transformation alone.\<close>

fun noClear :: "Cmd \<Rightarrow> bool" where
  "noClear (ClearRect x y w h) = False"
| "noClear _ = True"

fun keepsCtm :: "Cmd \<Rightarrow> bool" where
  "keepsCtm (Translate dx dy) = False"
| "keepsCtm (Scale kx ky) = False"
| "keepsCtm Restore = False"
| "keepsCtm _ = True"

section \<open>Surface availability\<close>

text \<open>The drawing surface is unavailable: the canvas or its 2-D context is null.\<close>

definition surfaceUnavailable :: "Canvas option \<Rightarrow> bool" where
  "surfaceUnavailable canvasRef =
     (case canvasRef of None \<Rightarrow> True | Some canvas \<Rightarrow> \<not> has_context canvas)"

section \<open>Concrete inputs\<close>


text \<open>The canvas element of the component, 800 by 600, placed at the client origin.\<close>

definition canvas0 :: Canvas where
  "canvas0 = \<lparr>width = 800, height = 600, rect_left = 0, rect_top = 0,
               has_context = True, has_roundRect = True\<rparr>"

text \<open>A pending table of the small type at a grid coordinate.\<close>

definition tableAt :: "string \<Rightarrow> real \<Rightarrow> real \<Rightarrow> Table" where
  "tableAt i gx gy =
     \<lparr>table_id = i, table_type = Small, status = Pending, table_x = gx, table_y = gy\<rparr>"

text \<open>
  A canvas whose context has no \<open>roundRect\<close>, a table with an issue, and two render
  passes over them, the second on the context as the first has left it.
\<close>

definition oldCanvas :: Canvas where
  "oldCanvas = canvas0\<lparr>has_roundRect := False\<rparr>"

definition issueTable :: Table where
  "issueTable = (tableAt ''t1'' 0 0)\<lparr>status := Issue\<rparr>"

definition firstPass :: "(Ctx \<times> Completion) option" where
  "firstPass = draw False (Some oldCanvas) [issueTable] initialState freshCtx"

definition secondPass :: "(Ctx \<times> Completion) option" where
  "secondPass =
     (case firstPass of
        None \<Rightarrow> None
      | Some (ctx, completion) \<Rightarrow> draw False (Some oldCanvas) [issueTable] initialState ctx)"

text \<open>Readings of the result of a pass.\<close>

definition completionOf :: "(Ctx \<times> Completion) option \<Rightarrow> Completion option" where
  "completionOf r = map_option snd r"

definition ctmAfter :: "(Ctx \<times> Completion) option \<Rightarrow> Transform option" where
  "ctmAfter r = map_option (\<lambda>(ctx, completion). ctm (cur ctx)) r"

definition pixelsAfter :: "(Ctx \<times> Completion) option \<Rightarrow> Paint list option" where
  "pixelsAfter r = map_option (\<lambda>(ctx, completion). pixels ctx) r"

section \<open>Scale bounds\<close>

lemma handleTouchStart_scale: "scale (handleTouchStart ts st) = scale st"
  by (induction ts st rule: handleTouchStart.induct) (simp_all add: Let_def)

lemma handleTouchMove_inPolicy:
  "inPolicy (scale st) \<Longrightarrow> inPolicy (scale (handleTouchMove ts st))"
proof (induction ts st rule: handleTouchMove.induct)
  case (2 t0 t1 st)
  then show ?case by (auto simp add: Let_def inPolicy_def min_def max_def)
qed simp_all

lemma nextState_inPolicy:
  assumes "inPolicy (scale st)"
  shows "inPolicy (scale (nextState e st))"
proof (cases e)
  case (Wheel dy)
  then show ?thesis by (auto simp add: handleWheel_def Let_def inPolicy_def min_def max_def)
next
  case (TouchStart ts)
  then show ?thesis using assms by (simp add: handleTouchStart_scale)
next
  case (TouchMove ts)
  then show ?thesis using assms by (simp add: handleTouchMove_inPolicy)
next
  case ZoomInButton
  then show ?thesis using assms by (simp add: zoomIn_def inPolicy_def min_def)
next
  case ZoomOutButton
  then show ?thesis using assms by (simp add: zoomOut_def inPolicy_def max_def)
next
  case ResetButton
  then show ?thesis by (simp add: resetView_def inPolicy_def)
qed (use assms in \<open>simp_all add: handleMouseDown_def handleMouseMove_def handleMouseUp_def
      handleTouchEnd_def\<close>)

lemma run_inPolicy:
  "inPolicy (scale st) \<Longrightarrow> inPolicy (scale (fst (run canvasRef tables es st)))"
proof (induction es arbitrary: st)
  case Nil
  then show ?case by simp
next
  case (Cons e es)
  from Cons.IH [OF nextState_inPolicy [OF Cons.prems]]
  show ?case by (simp add: split_def Let_def)
qed

text \<open>
  C4. Scale clamping invariant: after every sequence of wheel, pinch, button and reset
  inputs (and any other event of the component) applied from the initial state, the
  scale lies in [0.2, 5.0].
\<close>

theorem scale_clamping_invariant:
  "0.2 \<le> scale (fst (run canvasRef tables es initialState)) \<and>
   scale (fst (run canvasRef tables es initialState)) \<le> 5"
proof -
  have "inPolicy (scale initialState)"
    by (simp add: initialState_def inPolicy_def)
  from run_inPolicy [OF this, of canvasRef tables es] show ?thesis
    by (simp only: inPolicy_def)
qed

theorem scale_clamping_invariant_witness:
  "0.2 \<le> scale (fst (run None [] [Wheel (- 10000), ZoomInButton, ZoomOutButton] initialState)) \<and>
   scale (fst (run None [] [Wheel (- 10000), ZoomInButton, ZoomOutButton] initialState)) \<le> 5"
  by (rule scale_clamping_invariant)

section \<open>Zoom and the offset\<close>

lemma handleWheel_offset: "offset (handleWheel deltaY st) = offset st"
  by (simp add: handleWheel_def Let_def)

lemma handleTouchMove_pinch_offset: "offset (handleTouchMove [t0, t1] st) = offset st"
  by (simp add: Let_def)

text \<open>
  C10. A wheel event and a two-finger pinch move write only the scale of the view
  transform: both components of the offset are exactly what they were.
\<close>

theorem zoom_leaves_offset_unchanged:
  "pt_x (offset (handleWheel deltaY st)) = pt_x (offset st) \<and>
   pt_y (offset (handleWheel deltaY st)) = pt_y (offset st) \<and>
   pt_x (offset (handleTouchMove [t0, t1] st)) = pt_x (offset st) \<and>
   pt_y (offset (handleTouchMove [t0, t1] st)) = pt_y (offset st)"
  by (simp add: handleWheel_def Let_def)

section \<open>Pinch arithmetic\<close>

lemma hypot_horizontal: "0 \<le> d \<Longrightarrow> hypot (- d) 0 = d"
  by (simp add: hypot_def)

text \<open>
  C6. Two contacts that start 100 pixels apart and move to 150 pixels apart raise the
  scale by (150 - 100) * 0.005 = 0.25, the sum then clamped to [0.2, 5.0].
\<close>

theorem pinch_zoom_arithmetic:
  assumes "hypot (pt_x a0 - pt_x a1) (pt_y a0 - pt_y a1) = 100"
    and "hypot (pt_x b0 - pt_x b1) (pt_y b0 - pt_y b1) = 150"
  shows "scale (handleTouchMove [b0, b1] (handleTouchStart [a0, a1] st)) =
           min (max (scale st + 0.25) 0.2) 5"
  using assms by (simp add: Let_def truthy_def)

theorem pinch_zoom_arithmetic_witness:
  "hypot (pt_x \<lparr>pt_x = 0, pt_y = 0\<rparr> - pt_x \<lparr>pt_x = 100, pt_y = 0\<rparr>)
         (pt_y \<lparr>pt_x = 0, pt_y = 0\<rparr> - pt_y \<lparr>pt_x = 100, pt_y = 0\<rparr>) = 100 \<and>
   hypot (pt_x \<lparr>pt_x = 0, pt_y = 0\<rparr> - pt_x \<lparr>pt_x = 150, pt_y = 0\<rparr>)
         (pt_y \<lparr>pt_x = 0, pt_y = 0\<rparr> - pt_y \<lparr>pt_x = 150, pt_y = 0\<rparr>) = 150 \<and>
   scale (handleTouchMove [\<lparr>pt_x = 0, pt_y = 0\<rparr>, \<lparr>pt_x = 150, pt_y = 0\<rparr>]
            (handleTouchStart [\<lparr>pt_x = 0, pt_y = 0\<rparr>, \<lparr>pt_x = 100, pt_y = 0\<rparr>] initialState)) = 1.25"
proof -
  let ?o = "\<lparr>pt_x = 0, pt_y = 0\<rparr>"
  let ?a = "\<lparr>pt_x = 100, pt_y = 0\<rparr>"
  let ?b = "\<lparr>pt_x = 150, pt_y = 0\<rparr>"
  have h1: "hypot (pt_x ?o - pt_x ?a) (pt_y ?o - pt_y ?a) = 100"
    using hypot_horizontal [of 100] by simp
  have h2: "hypot (pt_x ?o - pt_x ?b) (pt_y ?o - pt_y ?b) = 150"
    using hypot_horizontal [of 150] by simp
  have s: "scale initialState = 1" by (simp add: initialState_def)
  have "scale (handleTouchMove [?o, ?b] (handleTouchStart [?o, ?a] initialState)) =
          min (max (scale initialState + 0.25) 0.2) 5"
    by (rule pinch_zoom_arithmetic [OF h1 h2])
  also have "\<dots> = 1.25" by (simp add: s)
  finally show ?thesis using h1 h2 by (intro conjI)
qed

section \<open>Touch transitions make no call\<close>

lemma run_append:
  "run cr tbs (es @ es') st =
     (fst (run cr tbs es' (fst (run cr tbs es st))),
      snd (run cr tbs es st) @ snd (run cr tbs es' (fst (run cr tbs es st))))"
  by (induction es arbitrary: st) (simp_all add: split_def Let_def)

text \<open>
  C7. After any sequence of events, the arrival of a second contact makes no
  \<open>onTableClick\<close> call and leaves no drag in progress, and the release of contacts
  makes no call either and leaves no drag in progress.
\<close>

theorem pinch_never_emits_tap:
  "snd (run canvasRef tables (es @ [TouchStart [t0, t1]]) st) = snd (run canvasRef tables es st) \<and>
   \<not> isDragging (fst (run canvasRef tables (es @ [TouchStart [t0, t1]]) st)) \<and>
   snd (run canvasRef tables (es @ [TouchEnd]) st) = snd (run canvasRef tables es st) \<and>
   \<not> isDragging (fst (run canvasRef tables (es @ [TouchEnd]) st))"
  by (simp add: run_append Let_def handleTouchEnd_def)

section \<open>Hit test order\<close>

lemma find_first:
  "P t \<Longrightarrow> \<forall>u \<in> set pre. \<not> P u \<Longrightarrow> find P (pre @ t # post) = Some t"
  by (induction pre) simp_all

text \<open>
  C3, as amended. When several tables contain the inverse-transformed point, the hit
  test returns the first of them in the order of the supplied list: a table that
  contains the point and has no containing table before it is the result, whatever
  follows it.
\<close>

theorem hit_test_returns_first:
  assumes "scale st \<noteq> 0"
    and "clickPoint canvas st clientX clientY = (clickX, clickY)"
    and "containsClick clickX clickY t"
    and "\<forall>u \<in> set pre. \<not> containsClick clickX clickY u"
  shows "clickedTable canvas (pre @ t # post) st clientX clientY = Some t"
  using assms by (simp add: clickedTable_def find_first)

theorem hit_test_returns_first_witness:
  "scale initialState \<noteq> 0 \<and>
   clickPoint canvas0 initialState 70 60 = (20, 10) \<and>
   containsClick 20 10 (tableAt ''a'' 0 0) \<and>
   containsClick 20 10 (tableAt ''b'' 0 0) \<and>
   \<not> containsClick 20 10 (tableAt ''z'' 5 5) \<and>
   clickedTable canvas0 ([tableAt ''z'' 5 5] @ tableAt ''a'' 0 0 # [tableAt ''b'' 0 0])
     initialState 70 60 = Some (tableAt ''a'' 0 0)"
proof -
  have 1: "scale initialState \<noteq> 0" by (simp add: initialState_def)
  have 2: "clickPoint canvas0 initialState 70 60 = (20, 10)"
    by (simp add: clickPoint_def initialState_def canvas0_def)
  have 3: "containsClick 20 10 (tableAt ''a'' 0 0)" "containsClick 20 10 (tableAt ''b'' 0 0)"
    by (simp_all add: containsClick_def tableAt_def TABLE_WIDTH_def TABLE_HEIGHT_def GAP_def)
  have 4: "\<not> containsClick 20 10 (tableAt ''z'' 5 5)"
    by (simp add: containsClick_def tableAt_def TABLE_WIDTH_def TABLE_HEIGHT_def GAP_def)
  then have 5: "\<forall>u \<in> set [tableAt ''z'' 5 5]. \<not> containsClick 20 10 u" by simp
  from hit_test_returns_first [OF 1 2 3(1) 5] 1 2 3 4 show ?thesis by blast
qed

text \<open>
  C3 as stated fails: two tables at the same grid coordinate both contain the point,
  and the one returned is the first, not the last.
\<close>

theorem hit_test_last_counterexample:
  "containsClick 20 10 (tableAt ''a'' 0 0) \<and> containsClick 20 10 (tableAt ''b'' 0 0) \<and>
   clickPoint canvas0 initialState 70 60 = (20, 10) \<and>
   clickedTable canvas0 [tableAt ''a'' 0 0, tableAt ''b'' 0 0] initialState 70 60
     = Some (tableAt ''a'' 0 0) \<and>
   handleClick (Some canvas0) [tableAt ''a'' 0 0, tableAt ''b'' 0 0] initialState 70 60 = [''a''] \<and>
   last [tableAt ''a'' 0 0, tableAt ''b'' 0 0] \<noteq> tableAt ''a'' 0 0"
  by (simp add: containsClick_def tableAt_def TABLE_WIDTH_def TABLE_HEIGHT_def GAP_def
      clickPoint_def clickedTable_def handleClick_def initialState_def canvas0_def)

section \<open>Release and click\<close>









section \<open>Zoom and the focal point\<close>

lemma focal_image:
  assumes "scale st \<noteq> 0" and "offset st' = offset st"
    and "clickPoint canvas st clientX clientY = (lx, ly)"
  shows "logicalToScreen st' lx ly =
           (pt_x (offset st) + scale st' / scale st * (clientX - rect_left canvas - pt_x (offset st)),
            pt_y (offset st) + scale st' / scale st * (clientY - rect_top canvas - pt_y (offset st)))"
  using assms by (auto simp add: logicalToScreen_def clickPoint_def)

lemma fixed_iff:
  fixes s s' p q :: real
  assumes "s \<noteq> 0"
  shows "(q + s' / s * (p - q) = p) \<longleftrightarrow> (s' = s \<or> p = q)"
proof -
  have "(q + s' / s * (p - q) = p) \<longleftrightarrow> ((s' / s - 1) * (p - q) = 0)"
    by (simp add: algebra_simps)
  also have "\<dots> \<longleftrightarrow> (s' / s = 1 \<or> p = q)" by simp
  also have "\<dots> \<longleftrightarrow> (s' = s \<or> p = q)" using assms by auto
  finally show ?thesis .
qed

text \<open>
  C1, as amended. Wheel and pinch zoom leave the offset as it is, so the logical point
  that was shown at a screen point is shown there again after the zoom exactly when the
  scale did not change or the screen point is the offset point, where the logical
  origin is shown.
\<close>

theorem zoom_fixes_offset_point_only:
  assumes "scale st \<noteq> 0"
    and "clickPoint canvas st clientX clientY = (lx, ly)"
    and "st' = handleWheel deltaY st \<or> st' = handleTouchMove [t0, t1] st"
  shows "logicalToScreen st' lx ly = (clientX - rect_left canvas, clientY - rect_top canvas) \<longleftrightarrow>
           scale st' = scale st \<or>
           (clientX - rect_left canvas = pt_x (offset st) \<and>
            clientY - rect_top canvas = pt_y (offset st))"
proof -
  from assms(3) have "offset st' = offset st"
    using handleWheel_offset handleTouchMove_pinch_offset by metis
  from focal_image [OF assms(1) this assms(2)] show ?thesis
    using fixed_iff [OF assms(1)] by auto
qed

theorem zoom_fixes_offset_point_only_witness:
  "scale initialState \<noteq> 0 \<and> clickPoint canvas0 initialState 50 50 = (0, 0) \<and>
   scale (handleWheel (- 1000) initialState) = 2 \<and>
   logicalToScreen (handleWheel (- 1000) initialState) 0 0 = (50 - rect_left canvas0, 50 - rect_top canvas0)"
proof -
  have 1: "scale initialState \<noteq> 0" by (simp add: initialState_def)
  have 2: "clickPoint canvas0 initialState 50 50 = (0, 0)"
    by (simp add: clickPoint_def initialState_def canvas0_def)
  have 3: "scale (handleWheel (- 1000) initialState) = 2"
    by (simp add: handleWheel_def initialState_def Let_def)
  have 4: "50 - rect_left canvas0 = pt_x (offset initialState) \<and>
           50 - rect_top canvas0 = pt_y (offset initialState)"
    by (simp add: initialState_def canvas0_def)
  from zoom_fixes_offset_point_only [OF 1 2, of "handleWheel (- 1000) initialState" "- 1000"] 4
  have "logicalToScreen (handleWheel (- 1000) initialState) 0 0 =
          (50 - rect_left canvas0, 50 - rect_top canvas0)"
    by blast
  with 1 2 3 show ?thesis by blast
qed

text \<open>
  C1 as stated fails: at scale 1 and offset (50, 50) the screen point (150, 50) shows
  the logical point (100, 0); a wheel zoom to scale 2 moves that point to (250, 50).
\<close>

theorem zoom_focal_counterexample:
  "clickPoint canvas0 initialState 150 50 = (100, 0) \<and>
   scale (handleWheel (- 1000) initialState) = 2 \<and>
   logicalToScreen (handleWheel (- 1000) initialState) 100 0 = (250, 50)"
  by (simp add: clickPoint_def logicalToScreen_def handleWheel_def initialState_def canvas0_def Let_def)

section \<open>Unavailable drawing surface\<close>

lemma run_state_any_canvas: "fst (run cr tbs es st) = fst (run cr' tbs' es st)"
  by (induction es arbitrary: st) (simp_all add: split_def Let_def)

text \<open>
  C9, as amended. When the canvas or its 2-D context is null, \<open>draw\<close> returns at once
  and leaves the surface as it was, and the gesture handlers update the view state as
  they do with a surface. When only the context is null the hit test of \<open>handleClick\<close>
  works as with a context; when the canvas itself is null \<open>handleClick\<close> returns before
  the hit test and makes no call.
\<close>

theorem unavailable_surface:
  assumes "surfaceUnavailable canvasRef"
  shows "draw exportMode canvasRef tables st ctx = Some (ctx, Normal) \<and>
         fst (run canvasRef tables es st) = fst (run (Some canvas0) tables es st) \<and>
         (case canvasRef of
            None \<Rightarrow> handleClick canvasRef tables st clientX clientY = []
          | Some canvas \<Rightarrow>
              handleClick canvasRef tables st clientX clientY =
              handleClick (Some (canvas\<lparr>has_context := True\<rparr>)) tables st clientX clientY)"
proof -
  have "draw exportMode canvasRef tables st ctx = Some (ctx, Normal)"
    using assms by (cases canvasRef) (simp_all add: draw_def surfaceUnavailable_def)
  moreover have "fst (run canvasRef tables es st) = fst (run (Some canvas0) tables es st)"
    by (rule run_state_any_canvas)
  moreover have "(case canvasRef of
            None \<Rightarrow> handleClick canvasRef tables st clientX clientY = []
          | Some canvas \<Rightarrow>
              handleClick canvasRef tables st clientX clientY =
              handleClick (Some (canvas\<lparr>has_context := True\<rparr>)) tables st clientX clientY)"
    by (cases canvasRef) (simp_all add: handleClick_def clickedTable_def clickPoint_def)
  ultimately show ?thesis by blast
qed

theorem unavailable_surface_witness:
  "surfaceUnavailable (Some (canvas0\<lparr>has_context := False\<rparr>)) \<and>
   draw False (Some (canvas0\<lparr>has_context := False\<rparr>)) [tableAt ''t1'' 0 0] initialState freshCtx
     = Some (freshCtx, Normal) \<and>
   handleClick (Some (canvas0\<lparr>has_context := False\<rparr>)) [tableAt ''t1'' 0 0] initialState 70 60
     = [''t1'']"
proof -
  have 1: "surfaceUnavailable (Some (canvas0\<lparr>has_context := False\<rparr>))"
    by (simp add: surfaceUnavailable_def)
  have 2: "handleClick (Some (canvas0\<lparr>has_context := False, has_context := True\<rparr>))
             [tableAt ''t1'' 0 0] initialState 70 60 = [''t1'']"
    by (simp add: containsClick_def tableAt_def TABLE_WIDTH_def TABLE_HEIGHT_def GAP_def
      clickPoint_def clickedTable_def handleClick_def initialState_def canvas0_def)
  from unavailable_surface [OF 1, of False "[tableAt ''t1'' 0 0]" initialState freshCtx "[]" 70 60] 1 2
  show ?thesis by simp
qed

text \<open>
  C9 as stated fails: with a null canvas the click on a table makes no call, although the
  table is under the point for the last-known transform.
\<close>

theorem null_canvas_counterexample:
  "draw False None [tableAt ''t1'' 0 0] initialState freshCtx = Some (freshCtx, Normal) \<and>
   clickedTable canvas0 [tableAt ''t1'' 0 0] initialState 70 60 = Some (tableAt ''t1'' 0 0) \<and>
   handleClick (Some canvas0) [tableAt ''t1'' 0 0] initialState 70 60 = [''t1''] \<and>
   handleClick None [tableAt ''t1'' 0 0] initialState 70 60 = []"
  by (simp add: containsClick_def tableAt_def TABLE_WIDTH_def TABLE_HEIGHT_def GAP_def
      clickPoint_def clickedTable_def handleClick_def initialState_def canvas0_def draw_def)

section \<open>Render pass\<close>

lemma exec_None_iff: "exec c k s = None \<longleftrightarrow> throwsOn c k"
  by (cases k) simp_all

lemma execAll_append:
  "execAll c (a @ b) s =
     (case execAll c a s of (s', Normal) \<Rightarrow> execAll c b s' | (s', TypeError) \<Rightarrow> (s', TypeError))"
  by (induction a arbitrary: s) (simp_all split: option.splits)

lemma execAll_append_Normal:
  "execAll c (a @ b) s = (s'', Normal) \<longleftrightarrow>
     (\<exists>s'. execAll c a s = (s', Normal) \<and> execAll c b s' = (s'', Normal))"
  by (auto simp add: execAll_append split: prod.splits Completion.splits)

lemma execAll_no_throw:
  "\<forall>k \<in> set ks. \<not> throwsOn c k \<Longrightarrow> snd (execAll c ks s) = Normal"
proof (induction ks arbitrary: s)
  case Nil
  then show ?case by simp
next
  case (Cons k ks)
  then have "exec c k s \<noteq> None" by (simp add: exec_None_iff)
  then obtain s' where "exec c k s = Some s'" by blast
  with Cons show ?case by simp
qed

lemma exec_keepsStack: "keepsStack k \<Longrightarrow> exec c k s = Some s' \<Longrightarrow> stack s' = stack s"
  by (cases k) (auto split: if_splits)

lemma execAll_keepsStack:
  "\<forall>k \<in> set ks. keepsStack k \<Longrightarrow> stack (fst (execAll c ks s)) = stack s"
proof (induction ks arbitrary: s)
  case Nil
  then show ?case by simp
next
  case (Cons k ks)
  show ?case
  proof (cases "exec c k s")
    case None
    then show ?thesis by simp
  next
    case (Some s')
    with Cons.prems have "stack s' = stack s" using exec_keepsStack [of k c s s'] by simp
    with Cons Some show ?thesis by simp
  qed
qed

lemma exec_pathStep:
  "pathStep k \<Longrightarrow> exec c k s = Some s' \<Longrightarrow> cur s' = cur s \<and> stack s' = stack s"
  by (cases k) auto

lemma execAll_pathStep:
  "\<forall>k \<in> set ks. pathStep k \<Longrightarrow>
   cur (fst (execAll c ks s)) = cur s \<and> stack (fst (execAll c ks s)) = stack s"
proof (induction ks arbitrary: s)
  case Nil
  then show ?case by simp
next
  case (Cons k ks)
  show ?case
  proof (cases "exec c k s")
    case None
    then show ?thesis by simp
  next
    case (Some s')
    with Cons.prems have "cur s' = cur s \<and> stack s' = stack s"
      using exec_pathStep [of k c s s'] by simp
    with Cons Some show ?thesis by simp
  qed
qed

lemma tableCmds_keepsStack: "k \<in> set (tableCmds rr t) \<Longrightarrow> keepsStack k"
  by (auto simp add: tableCmds_def drawCheckmark_def drawExclamation_def Let_def split: if_splits)

lemma tables_keepsStack: "\<forall>k \<in> set (concat (map (tableCmds rr) tables)). keepsStack k"
  by (auto simp add: tableCmds_keepsStack)

lemma tableCmds_no_throw:
  "has_roundRect c \<or> status t \<noteq> Issue \<Longrightarrow> k \<in> set (tableCmds (has_roundRect c) t) \<Longrightarrow>
   \<not> throwsOn c k"
  by (auto simp add: tableCmds_def drawCheckmark_def drawExclamation_def Let_def split: if_splits)


lemma drawCmds_shape:
  assumes "drawCmds e c tables st = Some cmds"
  shows "\<exists>G. (\<forall>k \<in> set G. pathStep k) \<and>
           cmds = preludeCmds e c @ G @
                  [Stroke, Save, Translate (pt_x (offset st)) (pt_y (offset st)),
                   Scale (scale st) (scale st)] @
                  concat (map (tableCmds (has_roundRect c)) tables) @ [Restore]"
proof -
  from assms obtain xs ys where
    cmds: "cmds = preludeCmds e c @
             (concat (map (\<lambda>x. [MoveTo x 0, LineTo x (height c)]) xs) @
              concat (map (\<lambda>y. [MoveTo 0 y, LineTo (width c) y]) ys)) @
             [Stroke, Save, Translate (pt_x (offset st)) (pt_y (offset st)),
              Scale (scale st) (scale st)] @
             concat (map (tableCmds (has_roundRect c)) tables) @ [Restore]"
    by (auto simp add: drawCmds_def preludeCmds_def Let_def split: option.splits)
  have "\<forall>k \<in> set (concat (map (\<lambda>x. [MoveTo x 0, LineTo x (height c)]) xs) @
              concat (map (\<lambda>y. [MoveTo 0 y, LineTo (width c) y]) ys)). pathStep k"
    by auto
  with cmds show ?thesis by blast
qed

lemma prelude_exec:
  assumes "ctm (cur s) = identity"
  shows "execAll c (preludeCmds e c) s =
           (s\<lparr>pixels := preludePixels e c, path := [], cur := preludeState e (cur s)\<rparr>, Normal)"
  using assms
  by (simp add: preludeCmds_def preludePixels_def preludeState_def coversCanvas_def identity_def)

lemma preludeState_idem: "preludeState e (preludeState e d) = preludeState e d"
  by (simp add: preludeState_def)

lemma preludeState_ctm: "ctm (preludeState e d) = ctm d"
  by (simp add: preludeState_def)

lemma rest_restores:
  assumes G: "\<forall>k \<in> set G. pathStep k"
    and T: "\<forall>k \<in> set T. keepsStack k"
    and run: "execAll c (G @ [Stroke, Save, Translate a b, Scale p q] @ T @ [Restore]) u = (u', Normal)"
  shows "cur u' = cur u \<and> stack u' = stack u"
proof -
  from run obtain uG where
    uG: "execAll c G u = (uG, Normal)" and
    r1: "execAll c ([Stroke, Save, Translate a b, Scale p q] @ T @ [Restore]) uG = (u', Normal)"
    by (auto simp add: execAll_append_Normal)
  from execAll_pathStep [OF G, of c u] uG
  have g: "cur uG = cur u" "stack uG = stack u" by simp_all
  from r1 obtain uS where
    uS: "execAll c [Stroke, Save, Translate a b, Scale p q] uG = (uS, Normal)" and
    r2: "execAll c (T @ [Restore]) uS = (u', Normal)"
    by (auto simp add: execAll_append_Normal)
  from uS have s: "stack uS = cur uG # stack uG" by auto
  from r2 obtain uT where
    uT: "execAll c T uS = (uT, Normal)" and
    r3: "execAll c [Restore] uT = (u', Normal)"
    by (auto simp add: execAll_append_Normal)
  from execAll_keepsStack [OF T, of c uS] uT have "stack uT = stack uS" by simp
  with s r3 have "cur u' = cur uG \<and> stack u' = stack uG" by auto
  with g show ?thesis by simp
qed

text \<open>
  A pass that returns normally from a context with the identity transformation leaves a
  surface that a second pass with the same inputs reproduces exactly.
\<close>

theorem draw_twice_same:
  assumes d: "draw e (Some c) tables st ctx = Some (ctx1, Normal)"
    and i: "ctm (cur ctx) = identity"
  shows "draw e (Some c) tables st ctx1 = Some (ctx1, Normal)"
proof (cases "has_context c")
  case False
  with d show ?thesis by (simp add: draw_def)
next
  case True
  with d obtain cmds where
    cmds: "drawCmds e c tables st = Some cmds" and
    ex: "execAll c cmds ctx = (ctx1, Normal)"
    by (auto simp add: draw_def split: option.splits)
  from drawCmds_shape [OF cmds] obtain G where
    G: "\<forall>k \<in> set G. pathStep k" and
    shape: "cmds = preludeCmds e c @ G @
                  [Stroke, Save, Translate (pt_x (offset st)) (pt_y (offset st)),
                   Scale (scale st) (scale st)] @
                  concat (map (tableCmds (has_roundRect c)) tables) @ [Restore]"
    by blast
  define R where "R = G @ [Stroke, Save, Translate (pt_x (offset st)) (pt_y (offset st)),
                   Scale (scale st) (scale st)] @
                  concat (map (tableCmds (has_roundRect c)) tables) @ [Restore]"
  let ?sA = "ctx\<lparr>pixels := preludePixels e c, path := [], cur := preludeState e (cur ctx)\<rparr>"
  have shape': "cmds = preludeCmds e c @ R"
    by (simp only: R_def shape)
  have A: "execAll c (preludeCmds e c) ctx = (?sA, Normal)"
    by (rule prelude_exec [OF i])
  from ex have "execAll c (preludeCmds e c @ R) ctx = (ctx1, Normal)"
    by (simp only: shape')
  then obtain sA' where "execAll c (preludeCmds e c) ctx = (sA', Normal)"
    and "execAll c R sA' = (ctx1, Normal)"
    unfolding execAll_append_Normal by blast
  with A have R: "execAll c R ?sA = (ctx1, Normal)" by simp
  from rest_restores [OF G tables_keepsStack R [unfolded R_def]]
  have c1: "cur ctx1 = preludeState e (cur ctx)" and s1: "stack ctx1 = stack ctx"
    by simp_all
  from c1 i have i1: "ctm (cur ctx1) = identity" by (simp add: preludeState_ctm)
  have "ctx1\<lparr>pixels := preludePixels e c, path := [], cur := preludeState e (cur ctx1)\<rparr> = ?sA"
    using c1 s1 by (simp add: preludeState_idem)
  with prelude_exec [OF i1, of c e]
  have "execAll c (preludeCmds e c) ctx1 = (?sA, Normal)" by simp
  with R have "execAll c (preludeCmds e c @ R) ctx1 = (ctx1, Normal)"
    unfolding execAll_append_Normal by blast
  then have "execAll c cmds ctx1 = (ctx1, Normal)" by (simp only: shape')
  with cmds True show ?thesis by (simp add: draw_def)
qed


lemma gridLoop_returns: "0 < g \<Longrightarrow> \<exists>xs. gridLoop x bound g = Some xs"
proof (induction x bound g rule: gridLoop.induct)
  case (1 x limit gridSize)
  show ?case
  proof (cases "x < limit")
    case True
    with 1 obtain xs where "gridLoop (x + gridSize) limit gridSize = Some xs" by fastforce
    with True 1(2) have "gridLoop x limit gridSize = Some (x # xs)"
      by (subst gridLoop.simps) simp
    then show ?thesis by blast
  next
    case False
    then have "gridLoop x limit gridSize = Some []" by (subst gridLoop.simps) simp
    then show ?thesis by blast
  qed
qed

lemma gridStops_returns: "0 < g \<Longrightarrow> \<exists>xs. gridStops off g bound = Some xs"
  using gridLoop_returns [of g] by (simp add: gridStops_def jsRem_def)

lemma drawCmds_returns:
  assumes "0 < scale st"
  shows "\<exists>cmds. drawCmds e c tables st = Some cmds"
proof -
  from assms have g: "0 < 50 * scale st" by simp
  from gridStops_returns [OF g] obtain xs where
    "gridStops (pt_x (offset st)) (50 * scale st) (width c) = Some xs" by blast
  moreover from gridStops_returns [OF g] obtain ys where
    "gridStops (pt_y (offset st)) (50 * scale st) (height c) = Some ys" by blast
  ultimately show ?thesis by (simp add: drawCmds_def Let_def)
qed

lemma preludeCmds_no_throw: "k \<in> set (preludeCmds e c) \<Longrightarrow> \<not> throwsOn c k"
  by (auto simp add: preludeCmds_def split: if_splits)

lemma pathStep_no_throw: "pathStep k \<Longrightarrow> \<not> throwsOn c k"
  by (cases k) simp_all

text \<open>
  With a positive scale the grid loops end, and with \<open>roundRect\<close> present or no table
  with an issue no call throws: the pass returns normally.
\<close>

theorem draw_returns_normally:
  assumes sc: "0 < scale st"
    and rr: "has_roundRect c \<or> (\<forall>t \<in> set tables. status t \<noteq> Issue)"
  shows "\<exists>ctx1. draw e (Some c) tables st ctx = Some (ctx1, Normal)"
proof (cases "has_context c")
  case False
  then show ?thesis by (simp add: draw_def)
next
  case True
  from drawCmds_returns [OF sc] obtain cmds where cmds: "drawCmds e c tables st = Some cmds"
    by blast
  from drawCmds_shape [OF cmds] obtain G where
    G: "\<forall>k \<in> set G. pathStep k" and
    shape: "cmds = preludeCmds e c @ G @
                  [Stroke, Save, Translate (pt_x (offset st)) (pt_y (offset st)),
                   Scale (scale st) (scale st)] @
                  concat (map (tableCmds (has_roundRect c)) tables) @ [Restore]"
    by blast
  have "\<forall>k \<in> set (concat (map (tableCmds (has_roundRect c)) tables)). \<not> throwsOn c k"
    using rr tableCmds_no_throw [of c] by auto
  with G have "\<forall>k \<in> set cmds. \<not> throwsOn c k"
    unfolding shape using preludeCmds_no_throw [of _ e c] pathStep_no_throw [of _ c] by auto
  from execAll_no_throw [OF this, of ctx]
  obtain ctx1 where "execAll c cmds ctx = (ctx1, Normal)"
    by (cases "execAll c cmds ctx") simp
  with cmds True show ?thesis by (simp add: draw_def)
qed

section \<open>Placement\<close>

lemma exec_noClear:
  "noClear k \<Longrightarrow> exec c k s = Some s' \<Longrightarrow> set (pixels s) \<subseteq> set (pixels s')"
  by (cases k) (auto split: if_splits list.splits)

lemma execAll_noClear:
  "\<forall>k \<in> set ks. noClear k \<Longrightarrow> set (pixels s) \<subseteq> set (pixels (fst (execAll c ks s)))"
proof (induction ks arbitrary: s)
  case Nil
  then show ?case by simp
next
  case (Cons k ks)
  show ?case
  proof (cases "exec c k s")
    case None
    then show ?thesis by simp
  next
    case (Some s')
    with Cons.prems have "set (pixels s) \<subseteq> set (pixels s')"
      using exec_noClear [of k c s s'] by simp
    moreover from Cons have "set (pixels s') \<subseteq> set (pixels (fst (execAll c ks s')))" by simp
    ultimately show ?thesis using Some by simp
  qed
qed

lemma exec_keepsCtm:
  "keepsCtm k \<Longrightarrow> exec c k s = Some s' \<Longrightarrow> ctm (cur s') = ctm (cur s)"
  by (cases k) (auto split: if_splits)

lemma execAll_keepsCtm:
  "\<forall>k \<in> set ks. keepsCtm k \<Longrightarrow> ctm (cur (fst (execAll c ks s))) = ctm (cur s)"
proof (induction ks arbitrary: s)
  case Nil
  then show ?case by simp
next
  case (Cons k ks)
  show ?case
  proof (cases "exec c k s")
    case None
    then show ?thesis by simp
  next
    case (Some s')
    with Cons.prems have "ctm (cur s') = ctm (cur s)"
      using exec_keepsCtm [of k c s s'] by simp
    with Cons Some show ?thesis by simp
  qed
qed

lemma tableCmds_noClear: "k \<in> set (tableCmds rr t) \<Longrightarrow> noClear k"
  by (auto simp add: tableCmds_def drawCheckmark_def drawExclamation_def Let_def split: if_splits)

lemma tableCmds_keepsCtm: "k \<in> set (tableCmds rr t) \<Longrightarrow> keepsCtm k"
  by (auto simp add: tableCmds_def drawCheckmark_def drawExclamation_def Let_def split: if_splits)

lemma tableCmds_split:
  "tableCmds rr t =
     take 5 (tableCmds rr t) @ [BeginPath, rectCall rr (rectFor t), Fill, Stroke] @
     drop 9 (tableCmds rr t)"
  by (simp add: tableCmds_def Let_def rectFor_def drawX_def drawY_def
      TABLE_WIDTH_def TABLE_HEIGHT_def GAP_def)


lemma drawCmds_rect:
  assumes cmds: "drawCmds e c tables st = Some cmds" and t: "t \<in> set tables"
  shows "\<exists>pre post. cmds = pre @ [BeginPath, rectCall (has_roundRect c) (rectFor t), Fill, Stroke] @ post"
proof -
  from drawCmds_shape [OF cmds] obtain G where
    shape: "cmds = preludeCmds e c @ G @
                  [Stroke, Save, Translate (pt_x (offset st)) (pt_y (offset st)),
                   Scale (scale st) (scale st)] @
                  concat (map (tableCmds (has_roundRect c)) tables) @ [Restore]"
    by blast
  from t obtain ts1 ts2 where ts: "tables = ts1 @ t # ts2" by (auto dest: split_list)
  let ?f = "tableCmds (has_roundRect c)"
  let ?mid = "[BeginPath, rectCall (has_roundRect c) (rectFor t), Fill, Stroke]"
  let ?pre = "preludeCmds e c @ G @
                  [Stroke, Save, Translate (pt_x (offset st)) (pt_y (offset st)),
                   Scale (scale st) (scale st)] @ concat (map ?f ts1) @ take 5 (?f t)"
  let ?post = "drop 9 (?f t) @ concat (map ?f ts2) @ [Restore]"
  have "concat (map ?f tables) = concat (map ?f ts1) @ ?f t @ concat (map ?f ts2)"
    by (simp add: ts)
  also have "?f t = take 5 (?f t) @ ?mid @ drop 9 (?f t)"
    by (rule tableCmds_split)
  finally have "cmds = ?pre @ ?mid @ ?post"
    by (simp only: shape append_assoc)
  then show ?thesis by blast
qed

lemma table_head_pixels:
  "execAll c (take 9 (tableCmds (has_roundRect c) t)) u = (u9, outcome) \<Longrightarrow>
   outcome = Normal \<and>
   pixels u9 = pixels u @
     [FillRectP (ctm (cur u)) (table_x t * 60 + 3) (table_y t * 40 + 3) 45 25
        (if status t = Completed then ''rgba(34, 197, 94, 0.2)''
         else if status t = Issue then ''rgba(239, 68, 68, 0.2)'' else ''rgba(0,0,0,0.05)''),
      FillP [(ctm (cur u), rectPath (has_roundRect c) (rectFor t))]
        (if status t = Completed then ''#dcfce7''
         else if status t = Issue then ''#fee2e2'' else ''#ffffff''),
      StrokeP [(ctm (cur u), rectPath (has_roundRect c) (rectFor t))]
        (if status t = Completed then ''#22c55e''
         else if status t = Issue then ''#ef4444'' else ''#94a3b8'')
        (if status t = Pending then 1 else 2) (ctm (cur u))]"
  by (cases "has_roundRect c")
     (auto simp add: tableCmds_def Let_def rectFor_def drawX_def drawY_def
        TABLE_WIDTH_def TABLE_HEIGHT_def GAP_def)

lemma table_head_exec:
  assumes "execAll c (take 9 (tableCmds (has_roundRect c) t)) u = (u9, outcome)"
  shows "outcome = Normal \<and>
   (\<exists>col. FillP [(ctm (cur u), rectPath (has_roundRect c) (rectFor t))] col \<in> set (pixels u9)) \<and>
   (\<exists>col lw. StrokeP [(ctm (cur u), rectPath (has_roundRect c) (rectFor t))] col lw (ctm (cur u))
       \<in> set (pixels u9))"
proof -
  let ?R = "[(ctm (cur u), rectPath (has_roundRect c) (rectFor t))]"
  let ?fc = "if status t = Completed then ''#dcfce7''
         else if status t = Issue then ''#fee2e2'' else ''#ffffff''"
  let ?sc = "if status t = Completed then ''#22c55e''
         else if status t = Issue then ''#ef4444'' else ''#94a3b8''"
  let ?lw = "if status t = Pending then 1 else 2 :: real"
  from table_head_pixels [OF assms] have n: "outcome = Normal"
    and f: "FillP ?R ?fc \<in> set (pixels u9)"
    and k: "StrokeP ?R ?sc ?lw (ctm (cur u)) \<in> set (pixels u9)"
    by simp_all
  from f have "\<exists>col. FillP ?R col \<in> set (pixels u9)" by (rule exI)
  moreover from k have "\<exists>col lw. StrokeP ?R col lw (ctm (cur u)) \<in> set (pixels u9)" by blast
  ultimately show ?thesis using n by blast
qed

lemma table_paints:
  assumes "execAll c (tableCmds (has_roundRect c) t) u = (u', Normal)"
  shows "(\<exists>col. FillP [(ctm (cur u), rectPath (has_roundRect c) (rectFor t))] col \<in> set (pixels u')) \<and>
   (\<exists>col lw. StrokeP [(ctm (cur u), rectPath (has_roundRect c) (rectFor t))] col lw (ctm (cur u))
       \<in> set (pixels u'))"
proof -
  let ?T = "tableCmds (has_roundRect c) t"
  have "execAll c (take 9 ?T @ drop 9 ?T) u = (u', Normal)"
    using assms by simp
  then obtain u9 where
    h: "execAll c (take 9 ?T) u = (u9, Normal)" and
    r: "execAll c (drop 9 ?T) u9 = (u', Normal)"
    unfolding execAll_append_Normal by blast
  have "\<forall>k \<in> set (drop 9 ?T). noClear k"
    using tableCmds_noClear [of _ "has_roundRect c" t] by (auto dest: in_set_dropD)
  from execAll_noClear [OF this, of u9 c] r
  have "set (pixels u9) \<subseteq> set (pixels u')" by simp
  with table_head_exec [OF h] show ?thesis by blast
qed


lemma view_setup:
  assumes "ctm (cur uG) = identity"
    and "execAll c [Stroke, Save, Translate (pt_x (offset st)) (pt_y (offset st)),
                   Scale (scale st) (scale st)] uG = (uS, Normal)"
  shows "ctm (cur uS) = viewCtm st"
  using assms by (auto simp add: identity_def viewCtm_def)

lemma tables_paint:
  assumes run: "execAll c (concat (map (tableCmds (has_roundRect c)) tables)) uS = (uT, Normal)"
    and t: "t \<in> set tables"
  shows "(\<exists>col. FillP [(ctm (cur uS), rectPath (has_roundRect c) (rectFor t))] col \<in> set (pixels uT)) \<and>
   (\<exists>col lw. StrokeP [(ctm (cur uS), rectPath (has_roundRect c) (rectFor t))] col lw (ctm (cur uS))
       \<in> set (pixels uT))"
proof -
  let ?f = "tableCmds (has_roundRect c)"
  from t obtain ts1 ts2 where ts: "tables = ts1 @ t # ts2" by (auto dest: split_list)
  have "concat (map ?f tables) = concat (map ?f ts1) @ ?f t @ concat (map ?f ts2)"
    by (simp add: ts)
  with run have "execAll c (concat (map ?f ts1) @ ?f t @ concat (map ?f ts2)) uS = (uT, Normal)"
    by simp
  then obtain u1 u2 where
    r1: "execAll c (concat (map ?f ts1)) uS = (u1, Normal)" and
    r2: "execAll c (?f t) u1 = (u2, Normal)" and
    r3: "execAll c (concat (map ?f ts2)) u2 = (uT, Normal)"
    unfolding execAll_append_Normal by blast
  have "\<forall>k \<in> set (concat (map ?f ts1)). keepsCtm k"
    using tableCmds_keepsCtm by auto
  from execAll_keepsCtm [OF this, of c uS] r1 have m: "ctm (cur u1) = ctm (cur uS)" by simp
  have "\<forall>k \<in> set (concat (map ?f ts2)). noClear k"
    using tableCmds_noClear by auto
  from execAll_noClear [OF this, of u2 c] r3 have "set (pixels u2) \<subseteq> set (pixels uT)" by simp
  with table_paints [OF r2] m show ?thesis by auto
qed

lemma draw_paints_table:
  assumes d: "draw e (Some c) tables st ctx = Some (ctx1, Normal)"
    and hc: "has_context c"
    and i: "ctm (cur ctx) = identity"
    and t: "t \<in> set tables"
  shows "(\<exists>col. FillP [(viewCtm st, rectPath (has_roundRect c) (rectFor t))] col \<in> set (pixels ctx1)) \<and>
   (\<exists>col lw. StrokeP [(viewCtm st, rectPath (has_roundRect c) (rectFor t))] col lw (viewCtm st)
       \<in> set (pixels ctx1))"
proof -
  from d hc obtain cmds where
    cmds: "drawCmds e c tables st = Some cmds" and
    ex: "execAll c cmds ctx = (ctx1, Normal)"
    by (auto simp add: draw_def split: option.splits)
  from drawCmds_shape [OF cmds] obtain G where
    G: "\<forall>k \<in> set G. pathStep k" and
    shape: "cmds = preludeCmds e c @ G @
                  [Stroke, Save, Translate (pt_x (offset st)) (pt_y (offset st)),
                   Scale (scale st) (scale st)] @
                  concat (map (tableCmds (has_roundRect c)) tables) @ [Restore]"
    by blast
  let ?V = "[Stroke, Save, Translate (pt_x (offset st)) (pt_y (offset st)),
                   Scale (scale st) (scale st)]"
  let ?T = "concat (map (tableCmds (has_roundRect c)) tables)"
  from ex have "execAll c (preludeCmds e c @ G @ ?V @ ?T @ [Restore]) ctx = (ctx1, Normal)"
    by (simp only: shape)
  then obtain sA uG uS uT where
    rA: "execAll c (preludeCmds e c) ctx = (sA, Normal)" and
    rG: "execAll c G sA = (uG, Normal)" and
    rV: "execAll c ?V uG = (uS, Normal)" and
    rT: "execAll c ?T uS = (uT, Normal)" and
    rR: "execAll c [Restore] uT = (ctx1, Normal)"
    unfolding execAll_append_Normal by blast
  from rA prelude_exec [OF i, of c e] have "ctm (cur sA) = identity"
    using i by (auto simp add: preludeState_ctm)
  with execAll_pathStep [OF G, of c sA] rG have "ctm (cur uG) = identity" by simp
  from view_setup [OF this rV] have v: "ctm (cur uS) = viewCtm st" .
  from rR have "set (pixels uT) \<subseteq> set (pixels ctx1)"
    by (auto split: list.splits)
  with tables_paint [OF rT t] v show ?thesis by auto
qed

lemma clickedTable_in_rect:
  assumes "clickedTable c tables st clientX clientY = Some u"
  shows "u \<in> set tables \<and> inRect (rectFor u) (clickPoint c st clientX clientY)"
proof -
  obtain lx ly where p: "clickPoint c st clientX clientY = (lx, ly)" by (cases "clickPoint c st clientX clientY")
  from assms p have f: "find (containsClick lx ly) tables = Some u"
    by (auto simp add: clickedTable_def split: if_splits)
  then have "u \<in> set tables" and "containsClick lx ly u"
    by (auto simp add: find_Some_iff)
  then show ?thesis
    by (simp add: p containsClick_def rectFor_def Let_def TABLE_WIDTH_def TABLE_HEIGHT_def GAP_def)
qed

lemma clickedTable_finds:
  assumes sc: "scale st \<noteq> 0" and t: "t \<in> set tables"
    and r: "inRect (rectFor t) (clickPoint c st clientX clientY)"
  shows "\<exists>u. clickedTable c tables st clientX clientY = Some u"
proof -
  obtain lx ly where p: "clickPoint c st clientX clientY = (lx, ly)" by (cases "clickPoint c st clientX clientY")
  from r have "containsClick lx ly t"
    by (simp add: p containsClick_def rectFor_def Let_def TABLE_WIDTH_def TABLE_HEIGHT_def GAP_def)
  with t have "find (containsClick lx ly) tables \<noteq> None"
    by (auto simp add: find_None_iff)
  with sc p show ?thesis by (auto simp add: clickedTable_def)
qed


text \<open>
  C5. For every table of the list, the rectangle the render pass paints and the
  rectangle the hit test uses are the one given by the placement formula
  x * (TABLE_WIDTH + GAP), y * (TABLE_HEIGHT + GAP), TABLE_WIDTH, TABLE_HEIGHT with the
  constants 45, 25 and 15. The calls of \<open>draw\<close> contain, for the table, \<open>beginPath\<close>, that
  rectangle, \<open>fill\<close> and \<open>stroke\<close> in a row; a pass that returns normally has filled and
  stroked the rectangle under the view transform; a table found by \<open>handleClick\<close> is one
  of the list whose rectangle contains the inverse-transformed click point, and makes
  the one call; a click point inside the rectangle of a table finds a table.
\<close>

theorem placement_formula:
  assumes t: "t \<in> set tables"
  shows
   "TABLE_WIDTH = 45 \<and> TABLE_HEIGHT = 25 \<and> GAP = 15 \<and>
    rectFor t = (table_x t * (TABLE_WIDTH + GAP), table_y t * (TABLE_HEIGHT + GAP),
                 TABLE_WIDTH, TABLE_HEIGHT) \<and>
    rectFor t = (drawX t, drawY t, TABLE_WIDTH, TABLE_HEIGHT) \<and>
    (drawCmds e c tables st = Some cmds \<longrightarrow>
       (\<exists>pre post. cmds = pre @ [BeginPath, rectCall (has_roundRect c) (rectFor t), Fill, Stroke] @ post)) \<and>
    (has_context c \<longrightarrow> ctm (cur ctx) = identity \<longrightarrow>
     draw e (Some c) tables st ctx = Some (ctxOut, Normal) \<longrightarrow>
       (\<exists>col. FillP [(viewCtm st, rectPath (has_roundRect c) (rectFor t))] col \<in> set (pixels ctxOut)) \<and>
       (\<exists>col lw. StrokeP [(viewCtm st, rectPath (has_roundRect c) (rectFor t))] col lw (viewCtm st)
           \<in> set (pixels ctxOut))) \<and>
    (clickedTable c tables st clientX clientY = Some u \<longrightarrow>
       u \<in> set tables \<and> inRect (rectFor u) (clickPoint c st clientX clientY) \<and>
       (\<not> isDragging st \<longrightarrow> handleClick (Some c) tables st clientX clientY = [table_id u])) \<and>
    (scale st \<noteq> 0 \<longrightarrow> inRect (rectFor t) (clickPoint c st clientX clientY) \<longrightarrow>
       (\<exists>u. clickedTable c tables st clientX clientY = Some u))"
proof -
  have k0: "TABLE_WIDTH = 45 \<and> TABLE_HEIGHT = 25 \<and> GAP = 15"
    by (simp add: TABLE_WIDTH_def TABLE_HEIGHT_def GAP_def)
  have r1: "rectFor t = (table_x t * (TABLE_WIDTH + GAP), table_y t * (TABLE_HEIGHT + GAP),
                 TABLE_WIDTH, TABLE_HEIGHT)"
    by (simp add: rectFor_def TABLE_WIDTH_def TABLE_HEIGHT_def GAP_def)
  have r2: "rectFor t = (drawX t, drawY t, TABLE_WIDTH, TABLE_HEIGHT)"
    by (simp add: rectFor_def drawX_def drawY_def TABLE_WIDTH_def TABLE_HEIGHT_def GAP_def)
  have d1: "drawCmds e c tables st = Some cmds \<longrightarrow>
       (\<exists>pre post. cmds = pre @ [BeginPath, rectCall (has_roundRect c) (rectFor t), Fill, Stroke] @ post)"
    using drawCmds_rect [of e c tables st cmds t] t by blast
  have d2: "has_context c \<longrightarrow> ctm (cur ctx) = identity \<longrightarrow>
     draw e (Some c) tables st ctx = Some (ctxOut, Normal) \<longrightarrow>
       (\<exists>col. FillP [(viewCtm st, rectPath (has_roundRect c) (rectFor t))] col \<in> set (pixels ctxOut)) \<and>
       (\<exists>col lw. StrokeP [(viewCtm st, rectPath (has_roundRect c) (rectFor t))] col lw (viewCtm st)
           \<in> set (pixels ctxOut))"
    using draw_paints_table [of e c tables st ctx ctxOut t] t by blast
  have h1: "clickedTable c tables st clientX clientY = Some u \<longrightarrow>
       u \<in> set tables \<and> inRect (rectFor u) (clickPoint c st clientX clientY) \<and>
       (\<not> isDragging st \<longrightarrow> handleClick (Some c) tables st clientX clientY = [table_id u])"
    using clickedTable_in_rect [of c tables st clientX clientY u]
    by (simp add: handleClick_def)
  have h2: "scale st \<noteq> 0 \<longrightarrow> inRect (rectFor t) (clickPoint c st clientX clientY) \<longrightarrow>
       (\<exists>u. clickedTable c tables st clientX clientY = Some u)"
    using clickedTable_finds [of st t tables c clientX clientY] t by blast
  from k0 r1 r2 d1 d2 h1 h2 show ?thesis by (intro conjI) blast+
qed

theorem placement_formula_witness:
  "tableAt ''t1'' 0 0 \<in> set [tableAt ''z'' 5 5, tableAt ''t1'' 0 0] \<and>
   rectFor (tableAt ''t1'' 0 0) = (0, 0, 45, 25) \<and>
   (\<exists>cmds pre post.
      drawCmds False canvas0 [tableAt ''z'' 5 5, tableAt ''t1'' 0 0] initialState = Some cmds \<and>
      cmds = pre @ [BeginPath, RoundRect 0 0 45 25 4, Fill, Stroke] @ post) \<and>
   (\<exists>ctx1 col.
      draw False (Some canvas0) [tableAt ''z'' 5 5, tableAt ''t1'' 0 0] initialState freshCtx
        = Some (ctx1, Normal) \<and>
      FillP [(\<lparr>m_sx = 1, m_sy = 1, m_dx = 50, m_dy = 50\<rparr>, PRoundRect 0 0 45 25 4)] col
        \<in> set (pixels ctx1)) \<and>
   clickedTable canvas0 [tableAt ''z'' 5 5, tableAt ''t1'' 0 0] initialState 70 60
     = Some (tableAt ''t1'' 0 0) \<and>
   inRect (rectFor (tableAt ''t1'' 0 0)) (clickPoint canvas0 initialState 70 60) \<and>
   handleClick (Some canvas0) [tableAt ''z'' 5 5, tableAt ''t1'' 0 0] initialState 70 60 = [''t1'']"
proof -
  let ?t = "tableAt ''t1'' 0 0"
  let ?ts = "[tableAt ''z'' 5 5, tableAt ''t1'' 0 0]"
  have t: "?t \<in> set ?ts" by simp
  have sc: "0 < scale initialState" by (simp add: initialState_def)
  have hc: "has_context canvas0" and rr: "has_roundRect canvas0" by (simp_all add: canvas0_def)
  have idm: "ctm (cur freshCtx) = identity" by (simp add: freshCtx_def)
  have nd: "\<not> isDragging initialState" by (simp add: initialState_def)
  have rf: "rectFor ?t = (0, 0, 45, 25)" by (simp add: rectFor_def tableAt_def)
  have vc: "viewCtm initialState = \<lparr>m_sx = 1, m_sy = 1, m_dx = 50, m_dy = 50\<rparr>"
    by (simp add: viewCtm_def initialState_def)
  have ct: "clickedTable canvas0 ?ts initialState 70 60 = Some ?t"
    by (simp add: clickedTable_def clickPoint_def containsClick_def tableAt_def
        TABLE_WIDTH_def TABLE_HEIGHT_def GAP_def initialState_def canvas0_def)
  from drawCmds_returns [OF sc, of False canvas0 ?ts] obtain cmds where
    cmds: "drawCmds False canvas0 ?ts initialState = Some cmds" by blast
  from draw_returns_normally [OF sc, of canvas0 ?ts False freshCtx] rr obtain ctx1 where
    d: "draw False (Some canvas0) ?ts initialState freshCtx = Some (ctx1, Normal)" by blast
  note P = placement_formula [OF t, where e = False and c = canvas0 and st = initialState
      and cmds = cmds and ctx = freshCtx and ctxOut = ctx1 and clientX = 70 and clientY = 60
      and u = ?t]
  have rc: "rectCall (has_roundRect canvas0) (rectFor ?t) = RoundRect 0 0 45 25 4"
    by (simp add: rr rf)
  have rp: "rectPath (has_roundRect canvas0) (rectFor ?t) = PRoundRect 0 0 45 25 4"
    by (simp add: rr rf)
  from P have "drawCmds False canvas0 ?ts initialState = Some cmds \<longrightarrow>
       (\<exists>pre post. cmds = pre @ [BeginPath, rectCall (has_roundRect canvas0) (rectFor ?t), Fill, Stroke] @ post)"
    by blast
  with cmds obtain pre post where
    "cmds = pre @ [BeginPath, rectCall (has_roundRect canvas0) (rectFor ?t), Fill, Stroke] @ post"
    by blast
  then have "cmds = pre @ [BeginPath, RoundRect 0 0 45 25 4, Fill, Stroke] @ post"
    by (simp only: rc)
  with cmds have c1: "\<exists>cmds pre post.
      drawCmds False canvas0 ?ts initialState = Some cmds \<and>
      cmds = pre @ [BeginPath, RoundRect 0 0 45 25 4, Fill, Stroke] @ post"
    by blast
  from P have "has_context canvas0 \<longrightarrow> ctm (cur freshCtx) = identity \<longrightarrow>
     draw False (Some canvas0) ?ts initialState freshCtx = Some (ctx1, Normal) \<longrightarrow>
       (\<exists>col. FillP [(viewCtm initialState, rectPath (has_roundRect canvas0) (rectFor ?t))] col
           \<in> set (pixels ctx1))"
    by blast
  with hc idm d obtain col where
    "FillP [(viewCtm initialState, rectPath (has_roundRect canvas0) (rectFor ?t))] col
           \<in> set (pixels ctx1)"
    by blast
  then have "FillP [(\<lparr>m_sx = 1, m_sy = 1, m_dx = 50, m_dy = 50\<rparr>, PRoundRect 0 0 45 25 4)] col
        \<in> set (pixels ctx1)"
    by (simp only: rp vc)
  with d have c2: "\<exists>ctx1 col.
      draw False (Some canvas0) ?ts initialState freshCtx = Some (ctx1, Normal) \<and>
      FillP [(\<lparr>m_sx = 1, m_sy = 1, m_dx = 50, m_dy = 50\<rparr>, PRoundRect 0 0 45 25 4)] col
        \<in> set (pixels ctx1)"
    by blast
  from P have "clickedTable canvas0 ?ts initialState 70 60 = Some ?t \<longrightarrow>
       ?t \<in> set ?ts \<and> inRect (rectFor ?t) (clickPoint canvas0 initialState 70 60) \<and>
       (\<not> isDragging initialState \<longrightarrow>
          handleClick (Some canvas0) ?ts initialState 70 60 = [table_id ?t])"
    by blast
  with ct nd have c3: "inRect (rectFor ?t) (clickPoint canvas0 initialState 70 60)"
    and c4: "handleClick (Some canvas0) ?ts initialState 70 60 = [table_id ?t]"
    by blast+
  have "table_id ?t = ''t1''" by (simp add: tableAt_def)
  with c4 have c5: "handleClick (Some canvas0) ?ts initialState 70 60 = [''t1'']"
    by (simp only:)
  from t rf c1 c2 ct c3 c5 show ?thesis by (intro conjI)
qed

section \<open>Render pass without roundRect\<close>

lemma gridStops_x0: "gridStops 50 50 800 =
    Some [0, 50, 100, 150, 200, 250, 300, 350, 400, 450, 500, 550, 600, 650, 700, 750]"
  by (simp add: gridStops_def jsRem_def gridLoop.simps)

lemma gridStops_y0: "gridStops 50 50 600 =
    Some [0, 50, 100, 150, 200, 250, 300, 350, 400, 450, 500, 550]"
  by (simp add: gridStops_def jsRem_def gridLoop.simps)

lemmas scene_defs = oldCanvas_def issueTable_def canvas0_def tableAt_def initialState_def
  freshCtx_def identity_def

lemma firstPass_value:
  "\<exists>px. firstPass =
     Some (\<lparr>pixels = px, path = [],
            cur = \<lparr>fillStyle = ''#b91c1c'', strokeStyle = ''#ef4444'', lineWidth = 2,
                   font = ''bold 10px sans-serif'', textAlign = ''left'', textBaseline = ''top'',
                   ctm = \<lparr>m_sx = 1, m_sy = 1, m_dx = 50, m_dy = 50\<rparr>\<rparr>,
            stack = [\<lparr>fillStyle = ''#000000'', strokeStyle = ''rgba(0,0,0,0.05)'',
                      lineWidth = 1, font = ''10px sans-serif'', textAlign = ''start'',
                      textBaseline = ''alphabetic'',
                      ctm = \<lparr>m_sx = 1, m_sy = 1, m_dx = 0, m_dy = 0\<rparr>\<rparr>]\<rparr>, TypeError) \<and>
     length px = 6"
  by (simp add: firstPass_def draw_def drawCmds_def scene_defs gridStops_x0 gridStops_y0
      tableCmds_def drawExclamation_def coversCanvas_def Let_def)

lemma pass_on_shifted_context:
  "\<exists>px'. draw False (Some oldCanvas) [issueTable] initialState
      \<lparr>pixels = px, path = [],
       cur = \<lparr>fillStyle = ''#b91c1c'', strokeStyle = ''#ef4444'', lineWidth = 2,
              font = ''bold 10px sans-serif'', textAlign = ''left'', textBaseline = ''top'',
              ctm = \<lparr>m_sx = 1, m_sy = 1, m_dx = 50, m_dy = 50\<rparr>\<rparr>,
       stack = ds\<rparr> =
     Some (\<lparr>pixels = px @ ClearP \<lparr>m_sx = 1, m_sy = 1, m_dx = 50, m_dy = 50\<rparr> 0 0 800 600 # px',
            path = [],
            cur = \<lparr>fillStyle = ''#b91c1c'', strokeStyle = ''#ef4444'', lineWidth = 2,
                   font = ''bold 10px sans-serif'', textAlign = ''left'', textBaseline = ''top'',
                   ctm = \<lparr>m_sx = 1, m_sy = 1, m_dx = 100, m_dy = 100\<rparr>\<rparr>,
            stack = \<lparr>fillStyle = ''#b91c1c'', strokeStyle = ''rgba(0,0,0,0.05)'', lineWidth = 1,
                   font = ''bold 10px sans-serif'', textAlign = ''left'', textBaseline = ''top'',
                   ctm = \<lparr>m_sx = 1, m_sy = 1, m_dx = 50, m_dy = 50\<rparr>\<rparr> # ds\<rparr>, TypeError) \<and>
     length px' = 6"
  by (simp add: draw_def drawCmds_def scene_defs gridStops_x0 gridStops_y0
      tableCmds_def drawExclamation_def coversCanvas_def Let_def)

text \<open>
  C8. Rendering the same tables, transform and mode twice should leave the same
  surface. On a context without \<open>roundRect\<close> and a table with an issue it does not:
  \<open>drawExclamation\<close> calls \<open>ctx.roundRect\<close> without the test that guards the main
  rectangle, the call throws before \<open>ctx.restore()\<close>, the context keeps the view
  transform, and the second pass clears and paints under it: the first pass ends with
  6 paint operations under translation (50, 50), the second with 13 under (100, 100).
\<close>

theorem render_twice_without_roundRect:
  "completionOf firstPass = Some TypeError \<and>
   ctmAfter firstPass = Some \<lparr>m_sx = 1, m_sy = 1, m_dx = 50, m_dy = 50\<rparr> \<and>
   map_option length (pixelsAfter firstPass) = Some 6 \<and>
   completionOf secondPass = Some TypeError \<and>
   ctmAfter secondPass = Some \<lparr>m_sx = 1, m_sy = 1, m_dx = 100, m_dy = 100\<rparr> \<and>
   map_option length (pixelsAfter secondPass) = Some 13 \<and>
   pixelsAfter secondPass \<noteq> pixelsAfter firstPass"
proof -
  from firstPass_value obtain px where
    f: "firstPass =
     Some (\<lparr>pixels = px, path = [],
            cur = \<lparr>fillStyle = ''#b91c1c'', strokeStyle = ''#ef4444'', lineWidth = 2,
                   font = ''bold 10px sans-serif'', textAlign = ''left'', textBaseline = ''top'',
                   ctm = \<lparr>m_sx = 1, m_sy = 1, m_dx = 50, m_dy = 50\<rparr>\<rparr>,
            stack = [\<lparr>fillStyle = ''#000000'', strokeStyle = ''rgba(0,0,0,0.05)'',
                      lineWidth = 1, font = ''10px sans-serif'', textAlign = ''start'',
                      textBaseline = ''alphabetic'',
                      ctm = \<lparr>m_sx = 1, m_sy = 1, m_dx = 0, m_dy = 0\<rparr>\<rparr>]\<rparr>, TypeError)"
    and lpx: "length px = 6"
    by blast
  from pass_on_shifted_context [of px] obtain px' where
    s: "secondPass =
      Some (\<lparr>pixels = px @ ClearP \<lparr>m_sx = 1, m_sy = 1, m_dx = 50, m_dy = 50\<rparr> 0 0 800 600 # px',
            path = [],
            cur = \<lparr>fillStyle = ''#b91c1c'', strokeStyle = ''#ef4444'', lineWidth = 2,
                   font = ''bold 10px sans-serif'', textAlign = ''left'', textBaseline = ''top'',
                   ctm = \<lparr>m_sx = 1, m_sy = 1, m_dx = 100, m_dy = 100\<rparr>\<rparr>,
            stack = [\<lparr>fillStyle = ''#b91c1c'', strokeStyle = ''rgba(0,0,0,0.05)'', lineWidth = 1,
                   font = ''bold 10px sans-serif'', textAlign = ''left'', textBaseline = ''top'',
                   ctm = \<lparr>m_sx = 1, m_sy = 1, m_dx = 50, m_dy = 50\<rparr>\<rparr>,
                   \<lparr>fillStyle = ''#000000'', strokeStyle = ''rgba(0,0,0,0.05)'',
                      lineWidth = 1, font = ''10px sans-serif'', textAlign = ''start'',
                      textBaseline = ''alphabetic'',
                      ctm = \<lparr>m_sx = 1, m_sy = 1, m_dx = 0, m_dy = 0\<rparr>\<rparr>]\<rparr>, TypeError)"
    and lpx': "length px' = 6"
    unfolding secondPass_def f by fastforce
  show ?thesis
    unfolding f s using lpx lpx' by (simp add: completionOf_def ctmAfter_def pixelsAfter_def)
qed

end
